theory Spec2Isabelle
  imports Complex_Main "HOL-Library.Word"
begin

section \<open>Floating-point values of the sketch\<close>

text \<open>
  The sketch computes the distance in C floating point. A value is a finite number, one of
  the two infinities, or not-a-number. Finite values are carried as exact reals: the
  rounding of single and double precision is not part of this model, the special values
  and the way the C operators treat them are.
\<close>

datatype cfloat = Fin real | PInf | NInf | NaN

text \<open>The C operator \<open>*\<close> on floating-point values.\<close>

fun fmul :: "cfloat \<Rightarrow> cfloat \<Rightarrow> cfloat" where
  "fmul NaN b = NaN"
| "fmul a NaN = NaN"
| "fmul (Fin a) (Fin b) = Fin (a * b)"
| "fmul (Fin a) PInf = (if a = 0 then NaN else if 0 < a then PInf else NInf)"
| "fmul (Fin a) NInf = (if a = 0 then NaN else if 0 < a then NInf else PInf)"
| "fmul PInf (Fin b) = (if b = 0 then NaN else if 0 < b then PInf else NInf)"
| "fmul NInf (Fin b) = (if b = 0 then NaN else if 0 < b then NInf else PInf)"
| "fmul PInf PInf = PInf"
| "fmul PInf NInf = NInf"
| "fmul NInf PInf = NInf"
| "fmul NInf NInf = PInf"

text \<open>The C operator \<open>-\<close> on floating-point values.\<close>

fun fsub :: "cfloat \<Rightarrow> cfloat \<Rightarrow> cfloat" where
  "fsub NaN b = NaN"
| "fsub a NaN = NaN"
| "fsub (Fin a) (Fin b) = Fin (a - b)"
| "fsub (Fin a) PInf = NInf"
| "fsub (Fin a) NInf = PInf"
| "fsub PInf (Fin b) = PInf"
| "fsub NInf (Fin b) = NInf"
| "fsub PInf PInf = NaN"
| "fsub PInf NInf = PInf"
| "fsub NInf PInf = NInf"
| "fsub NInf NInf = NaN"

text \<open>
  \<open>pow(x, y)\<close> of the C library for finite arguments; the sketch calls it with the
  sample converted from an integer as base. A zero base with a negative exponent is a
  pole and gives plus infinity, a negative base with a fractional exponent gives
  not-a-number.
\<close>

definition pow :: "real \<Rightarrow> real \<Rightarrow> cfloat" where
  "pow x y =
     (if 0 < x then Fin (x powr y)
      else if x = 0 then (if y < 0 then PInf else if y = 0 then Fin 1 else Fin 0)
      else if of_int \<lfloor>y\<rfloor> = y then Fin (x powi \<lfloor>y\<rfloor>)
      else NaN)"

text \<open>\<open>roundf\<close>: to the nearest integer, halfway cases away from zero.\<close>

definition round_away :: "real \<Rightarrow> int" where
  "round_away x = (if 0 \<le> x then \<lfloor>x + 1 / 2\<rfloor> else - \<lfloor>- x + 1 / 2\<rfloor>)"

fun roundf :: "cfloat \<Rightarrow> cfloat" where
  "roundf (Fin x) = Fin (of_int (round_away x))"
| "roundf PInf = PInf"
| "roundf NInf = NInf"
| "roundf NaN = NaN"

text \<open>The C comparisons \<open>!=\<close> and \<open>>=\<close>; not-a-number differs from everything and is
  not above anything.\<close>

fun fne :: "cfloat \<Rightarrow> cfloat \<Rightarrow> bool" where
  "fne NaN b = True"
| "fne a NaN = True"
| "fne a b = (a \<noteq> b)"

fun fge :: "cfloat \<Rightarrow> cfloat \<Rightarrow> bool" where
  "fge NaN b = False"
| "fge a NaN = False"
| "fge (Fin a) (Fin b) = (b \<le> a)"
| "fge PInf b = True"
| "fge a NInf = True"
| "fge (Fin a) PInf = False"
| "fge NInf (Fin b) = False"
| "fge NInf PInf = False"

section \<open>Constants, state and observable actions\<close>

definition LED_RED :: nat where "LED_RED = 0"
definition LED_GREEN :: nat where "LED_GREEN = 4"
definition SLEEPMS :: nat where "SLEEPMS = 900"
definition MQTT_TOPIC :: string where "MQTT_TOPIC = ''garagedoor''"
definition MQTT_SENSORS :: string where "MQTT_SENSORS = ''pong''"
definition MQTT_TEMP :: string where "MQTT_TEMP = ''garage_temp''"
definition MQTT_HUMI :: string where "MQTT_HUMI = ''garage_humi''"

text \<open>
  What is printed or published: a string literal, the buffer filled by
  \<open>dtostrf(v, 5, 2, buf)\<close>, a float printed by \<open>Serial.println\<close>, or the value of
  \<open>client.state()\<close>.
\<close>

datatype payload = Text string | Dtostrf cfloat | Num cfloat | ClientState

text \<open>The calls of the sketch that act on the outside world, in the order they are made.\<close>

datatype action =
    Publish string payload
  | Print payload
  | Println payload
  | DigitalWrite nat bool
  | Delay nat
  | Connect
  | ClientLoop
  | ReadHumidity
  | ReadTemperature
  | AnalogRead

text \<open>
  The global variables of the sketch and the output level of the pins. The global
  \<open>newdistance\<close> is never written: \<open>loop\<close> declares a local of the same name.
\<close>

record sketch =
  oldstate :: bool
  state :: bool
  olddistance :: cfloat
  newdistance :: cfloat
  last_msg_sent :: "32 word"
  pins :: "nat \<Rightarrow> bool"

text \<open>What one pass of \<open>loop\<close> reads from the outside world.\<close>

record tick_in =
  link :: bool
  connects :: "nat \<Rightarrow> bool"
  millis :: "32 word"
  humidity :: cfloat
  temperature :: cfloat
  analog :: int

text \<open>
  The globals before the function \<open>setup\<close> runs: static storage is
  zero-initialised, and the pins hold whatever level the hardware gives them.
\<close>

definition power_on :: "(nat \<Rightarrow> bool) \<Rightarrow> sketch" where
  "power_on lv =
     \<lparr>oldstate = False, state = False, olddistance = Fin 0, newdistance = Fin 0,
      last_msg_sent = 0, pins = lv\<rparr>"

text \<open>
  The function \<open>setup\<close> of the sketch: of its effects the model keeps those on
  the globals; \<open>pinMode\<close> selects the direction of a pin and writes no level. The
  serial banner and the wait for the wireless network are left out.
\<close>

definition setup_sketch :: "sketch \<Rightarrow> sketch" where
  "setup_sketch s = s\<lparr>oldstate := True, state := True\<rparr>"

section \<open>The operations\<close>

text \<open>
  \<open>reconnect\<close>: the loop runs until the client is connected. \<open>outcome k\<close> is the result
  of the \<open>k\<close>-th call of \<open>client.connect\<close>, and \<open>client.connected()\<close> is taken to answer
  what the last attempt returned. The loop has no exit but success, so the function is
  partial: \<open>None\<close> stands for a loop that never ends.
\<close>

definition attempt_ok :: "action list" where
  "attempt_ok =
     [Print (Text ''Attempting MQTT connection...''), Connect,
      Println (Text ''connected''), Publish MQTT_TOPIC (Text ''sensor_online'')]"

definition attempt_failed :: "action list" where
  "attempt_failed =
     [Print (Text ''Attempting MQTT connection...''), Connect,
      Print (Text ''failed, rc=''), Print ClientState,
      Println (Text '' try again in 5 seconds''), Delay 5000]"

partial_function (option) reconnect ::
  "(nat \<Rightarrow> bool) \<Rightarrow> nat \<Rightarrow> bool \<Rightarrow> action list \<Rightarrow> action list option" where
  "reconnect outcome k conn tr =
     (if conn then Some tr
      else if outcome k then reconnect outcome (Suc k) True (tr @ attempt_ok)
      else reconnect outcome (Suc k) False (tr @ attempt_failed))"

text \<open>The periodic part of \<open>loop\<close>: ping and the two readings of the DHT sensor.\<close>

definition telemetry :: "sketch \<Rightarrow> tick_in \<Rightarrow> sketch \<times> action list" where
  "telemetry s i =
     (if 10000 <s millis i - last_msg_sent s
      then (s\<lparr>last_msg_sent := millis i\<rparr>,
            [Publish MQTT_SENSORS (Text ''ping''),
             ReadHumidity, ReadTemperature,
             Publish MQTT_TEMP (Dtostrf (temperature i)),
             Publish MQTT_HUMI (Dtostrf (humidity i)),
             Print (Text ''Temperature ''), Println (Dtostrf (temperature i)),
             Print (Text ''Humidity ''), Println (Dtostrf (humidity i))])
      else (s, []))"

text \<open>The distance computed from a sample, and the door state read off it.\<close>

definition distance_of :: "int \<Rightarrow> cfloat" where
  "distance_of raw =
     roundf (fsub (fmul (Fin 10650.08) (pow (of_int raw) (- 0.935))) (Fin 10))"

definition door_of :: "int \<Rightarrow> bool" where
  "door_of raw = fge (distance_of raw) (Fin 20)"

text \<open>The effects of a change of the door state.\<close>

definition edge :: "sketch \<Rightarrow> sketch \<times> action list" where
  "edge s =
     (if state s \<noteq> oldstate s
      then (if state s
            then (s\<lparr>pins := (pins s)(LED_GREEN := True, LED_RED := False)\<rparr>,
                  [Println (Text ''Sesame is Open''),
                   Publish MQTT_TOPIC (Text ''garage_opened''),
                   DigitalWrite LED_GREEN True, DigitalWrite LED_RED False])
            else (s\<lparr>pins := (pins s)(LED_GREEN := False, LED_RED := True)\<rparr>,
                  [Println (Text ''Sesame is CLOSED''),
                   Publish MQTT_TOPIC (Text ''garage_closed''),
                   DigitalWrite LED_GREEN False, DigitalWrite LED_RED True]))
      else (s, []))"

text \<open>The second half of \<open>loop\<close>: sample, log, classify, edge, bookkeeping, rest.\<close>

definition sample :: "sketch \<Rightarrow> tick_in \<Rightarrow> sketch \<times> action list" where
  "sample s i =
     (let nd = distance_of (analog i);
          lg = (if fne (olddistance s) nd
                then [Print (Text ''New distance ''), Println (Num nd)] else []);
          s1 = s\<lparr>state := fge nd (Fin 20)\<rparr>;
          s2 = fst (edge s1);
          ev = snd (edge s1)
      in (s2\<lparr>oldstate := state s2, olddistance := nd\<rparr>,
          AnalogRead # lg @ ev @ [Delay SLEEPMS]))"

text \<open>One pass of \<open>loop\<close>; \<open>None\<close> when \<open>reconnect\<close> never returns.\<close>

definition loop :: "sketch \<Rightarrow> tick_in \<Rightarrow> (sketch \<times> action list) option" where
  "loop s i =
     (case (if \<not> link i then reconnect (connects i) 0 (link i) [] else Some []) of
        None \<Rightarrow> None
      | Some tr0 \<Rightarrow>
          Some (fst (sample (fst (telemetry s i)) i),
                tr0 @ ClientLoop # snd (telemetry s i) @ snd (sample (fst (telemetry s i)) i)))"

text \<open>A sequence of passes; \<open>None\<close> when one of them never returns.\<close>

fun run :: "sketch \<Rightarrow> tick_in list \<Rightarrow> sketch option" where
  "run s [] = Some s"
| "run s (i # js) = (case loop s i of None \<Rightarrow> None | Some r \<Rightarrow> run (fst r) js)"

text \<open>The same sequence of passes with everything it did, in order.\<close>

fun run_trace :: "sketch \<Rightarrow> tick_in list \<Rightarrow> (sketch \<times> action list) option" where
  "run_trace s [] = Some (s, [])"
| "run_trace s (i # js) =
     (case loop s i of
        None \<Rightarrow> None
      | Some r \<Rightarrow>
          (case run_trace (fst r) js of
             None \<Rightarrow> None
           | Some q \<Rightarrow> Some (fst q, snd r @ snd q)))"

section \<open>Reading traces and states\<close>

definition ping :: action where
  "ping = Publish MQTT_SENSORS (Text ''ping'')"

definition sensor_online :: action where
  "sensor_online = Publish MQTT_TOPIC (Text ''sensor_online'')"

definition garage_opened :: action where
  "garage_opened = Publish MQTT_TOPIC (Text ''garage_opened'')"

definition garage_closed :: action where
  "garage_closed = Publish MQTT_TOPIC (Text ''garage_closed'')"

fun is_publish :: "action \<Rightarrow> bool" where
  "is_publish (Publish t p) = True"
| "is_publish a = False"

fun is_write :: "action \<Rightarrow> bool" where
  "is_write (DigitalWrite p v) = True"
| "is_write a = False"

definition publishes :: "action list \<Rightarrow> action list" where
  "publishes tr = filter is_publish tr"

definition writes :: "action list \<Rightarrow> action list" where
  "writes tr = filter is_write tr"

definition state_changes :: "action list \<Rightarrow> action list" where
  "state_changes tr = filter (\<lambda>a. a = garage_opened \<or> a = garage_closed) tr"

definition distance_logs :: "action list \<Rightarrow> action list" where
  "distance_logs tr = filter (\<lambda>a. a = Print (Text ''New distance '')) tr"

definition delays :: "action list \<Rightarrow> nat list" where
  "delays tr = concat (map (\<lambda>a. case a of Delay d \<Rightarrow> [d] | _ \<Rightarrow> []) tr)"

text \<open>The levels of the green and of the red indicator.\<close>

definition leds :: "sketch \<Rightarrow> bool \<times> bool" where
  "leds s = (pins s LED_GREEN, pins s LED_RED)"

text \<open>The times at which the periodic part fires over a sequence of passes.\<close>

fun fire_times :: "sketch \<Rightarrow> tick_in list \<Rightarrow> 32 word list" where
  "fire_times s [] = []"
| "fire_times s (i # js) =
     (if snd (telemetry s i) = [] then fire_times (fst (telemetry s i)) js
      else millis i # fire_times (fst (telemetry s i)) js)"

text \<open>Each time is more than 10000 ms after the one before, in signed 32-bit arithmetic.\<close>

fun spaced :: "32 word list \<Rightarrow> bool" where
  "spaced (a # b # r) = (10000 <s b - a \<and> spaced (b # r))"
| "spaced r = True"

section \<open>Sample inputs\<close>

definition all_low :: "nat \<Rightarrow> bool" where
  "all_low p = False"

definition refused :: "nat \<Rightarrow> bool" where
  "refused k = False"

definition third_time :: "nat \<Rightarrow> bool" where
  "third_time k = (k = 2)"

definition boot :: sketch where
  "boot = setup_sketch (power_on all_low)"

definition tick_of :: "32 word \<Rightarrow> int \<Rightarrow> tick_in" where
  "tick_of t raw =
     \<lparr>link = True, connects = refused, millis = t,
      humidity = Fin 50, temperature = Fin 20, analog = raw\<rparr>"

definition tick_dht_failed :: tick_in where
  "tick_dht_failed = (tick_of 20000 500)\<lparr>humidity := NaN\<rparr>"

definition tick_offline :: tick_in where
  "tick_offline = (tick_of 20000 500)\<lparr>link := False, connects := third_time\<rparr>"

section \<open>Bounds on the calibration curve\<close>

lemma powr_ratio_power:
  fixes x :: real
  assumes "0 < x" "0 < b"
  shows "(x powr (real a / real b)) ^ b = x ^ a"
proof -
  have pos: "0 < x powr (real a / real b)" using assms(1) by simp
  have "(x powr (real a / real b)) ^ b = (x powr (real a / real b)) powr (real b)"
    by (rule powr_realpow [OF pos, symmetric])
  also have "\<dots> = x powr (real a / real b * real b)" by (simp only: powr_powr)
  also have "\<dots> = x powr (real a)" using assms(2) by simp
  also have "\<dots> = x ^ a" using assms(1) by (simp only: powr_realpow)
  finally show ?thesis .
qed

lemma powr_935_less:
  fixes n p a b :: nat
  assumes "0 < n" "0 < b" "0.935 \<le> real a / real b" "n ^ a < p ^ b"
  shows "real n powr 0.935 < real p"
proof (rule ccontr)
  assume "\<not> real n powr 0.935 < real p"
  then have "real p \<le> real n powr 0.935" by simp
  also have "\<dots> \<le> real n powr (real a / real b)"
    using assms(1,3) by (intro powr_mono) simp_all
  finally have "real p ^ b \<le> (real n powr (real a / real b)) ^ b"
    by (intro power_mono) simp_all
  moreover have "(real n powr (real a / real b)) ^ b = real n ^ a"
    using assms(1,2) by (intro powr_ratio_power) simp_all
  ultimately have "real p ^ b \<le> real n ^ a" by (simp only:)
  then have "real (p ^ b) \<le> real (n ^ a)" by simp
  then have "p ^ b \<le> n ^ a" by (simp only: of_nat_le_iff)
  with assms(4) show False by simp
qed

lemma powr_935_greater:
  fixes n p a b :: nat
  assumes "0 < n" "0 < b" "real a / real b \<le> 0.935" "p ^ b < n ^ a"
  shows "real p < real n powr 0.935"
proof (rule ccontr)
  assume "\<not> real p < real n powr 0.935"
  then have le: "real n powr 0.935 \<le> real p" by simp
  have "real n powr (real a / real b) \<le> real n powr 0.935"
    using assms(1,3) by (intro powr_mono) simp_all
  then have "real n powr (real a / real b) \<le> real p" using le by simp
  then have "(real n powr (real a / real b)) ^ b \<le> real p ^ b"
    by (intro power_mono) simp_all
  moreover have "(real n powr (real a / real b)) ^ b = real n ^ a"
    using assms(1,2) by (intro powr_ratio_power) simp_all
  ultimately have "real n ^ a \<le> real p ^ b" by (simp only:)
  then have "real (n ^ a) \<le> real (p ^ b)" by simp
  then have "n ^ a \<le> p ^ b" by (simp only: of_nat_le_iff)
  with assms(4) show False by simp
qed

lemma round_away_eq:
  assumes "real_of_int d - 1 / 2 \<le> x" "x < real_of_int d + 1 / 2" "0 \<le> x"
  shows "round_away x = d"
proof -
  have "\<lfloor>x + 1 / 2\<rfloor> = d" using assms(1,2) by (simp add: floor_eq_iff)
  then show ?thesis using assms(3) by (simp add: round_away_def)
qed

lemma distance_of_positive:
  assumes "0 < raw"
  shows "distance_of raw =
     Fin (of_int (round_away (10650.08 * real_of_int raw powr (- 0.935) - 10)))"
  using assms by (simp add: distance_of_def pow_def)

lemma distance_of_zero: "distance_of 0 = PInf"
  by (simp add: distance_of_def pow_def)

lemma exponent_fractional: "real_of_int \<lfloor>- 0.935 :: real\<rfloor> \<noteq> - 0.935"
proof
  assume "real_of_int \<lfloor>- 0.935 :: real\<rfloor> = - 0.935"
  then have "frac (- 0.935 :: real) = 0" by (simp add: frac_def)
  moreover have "\<lfloor>- 0.935 :: real\<rfloor> = - 1" by (simp add: floor_eq_iff)
  ultimately show False by (simp add: frac_def)
qed

lemma distance_of_negative: "raw < 0 \<Longrightarrow> distance_of raw = NaN"
  using exponent_fractional by (simp add: distance_of_def pow_def)

text \<open>The distance of a sample, from bounds on the power.\<close>

lemma distance_of_between:
  fixes n :: nat and d :: int and lo hi :: real
  assumes n: "0 < n" and d: "0 < d" and lo: "0 < lo"
    and l: "lo < real n powr 0.935" and h: "real n powr 0.935 < hi"
    and cl: "10650.08 \<le> (real_of_int d + 10.5) * lo"
    and ch: "(real_of_int d + 9.5) * hi \<le> 10650.08"
  shows "distance_of (int n) = Fin (of_int d)"
proof -
  define y where "y = real n powr 0.935"
  have ypos: "0 < y" using n by (simp add: y_def)
  have inv: "real_of_int (int n) powr (- 0.935) = 1 / y"
    unfolding y_def by (simp add: powr_minus inverse_eq_divide)
  define cm where "cm = 10650.08 / y - 10"
  have "(real_of_int d + 10.5) * lo < (real_of_int d + 10.5) * y"
    using l d by (simp add: y_def)
  then have "10650.08 < (real_of_int d + 10.5) * y" using cl by simp
  then have "10650.08 / y < real_of_int d + 10.5"
    using ypos by (simp add: pos_divide_less_eq)
  then have up: "cm < real_of_int d + 1 / 2" by (simp add: cm_def)
  have "(real_of_int d + 9.5) * y \<le> (real_of_int d + 9.5) * hi"
    using h d by (intro mult_left_mono) (simp_all add: y_def)
  then have "(real_of_int d + 9.5) * y \<le> 10650.08" using ch by simp
  then have "real_of_int d + 9.5 \<le> 10650.08 / y"
    using ypos by (simp add: pos_le_divide_eq)
  then have low: "real_of_int d - 1 / 2 \<le> cm" by (simp add: cm_def)
  have "1 \<le> real_of_int d" using d by simp
  then have nonneg: "0 \<le> cm" using low by simp
  have "round_away cm = d" using low up nonneg by (rule round_away_eq)
  moreover have "10650.08 * real_of_int (int n) powr (- 0.935) - 10 = cm"
    unfolding inv cm_def by simp
  moreover have "distance_of (int n) =
      Fin (of_int (round_away (10650.08 * real_of_int (int n) powr (- 0.935) - 10)))"
    using n by (intro distance_of_positive) simp
  ultimately show ?thesis by (simp only:)
qed


lemma distance_500: "distance_of 500 = Fin 22"
proof -
  have "real 328 < real 500 powr 0.935"
    by (rule powr_935_greater [where a = 14 and b = 15]) simp_all
  moreover have "real 500 powr 0.935 < real 338"
    by (rule powr_935_less [where a = 29 and b = 31]) simp_all
  ultimately have "distance_of (int 500) = Fin (of_int 22)"
    by (intro distance_of_between [where lo = "real 328" and hi = "real 338"]) simp_all
  then show ?thesis by simp
qed

lemma distance_1023: "distance_of 1023 = Fin 6"
proof -
  have "real 646 < real 1023 powr 0.935"
    by (rule powr_935_greater [where a = 43 and b = 46]) simp_all
  moreover have "real 1023 powr 0.935 < real 687"
    by (rule powr_935_less [where a = 15 and b = 16]) simp_all
  ultimately have "distance_of (int 1023) = Fin (of_int 6)"
    by (intro distance_of_between [where lo = "real 646" and hi = "real 687"]) simp_all
  then show ?thesis by simp
qed

lemma door_500: "door_of 500" by (simp add: door_of_def distance_500)
lemma door_1023: "\<not> door_of 1023" by (simp add: door_of_def distance_1023)
lemma door_0: "door_of 0" by (simp add: door_of_def distance_of_zero)

section \<open>The reconnection loop\<close>

lemma reconnect_connected: "reconnect outcome k True tr = Some tr"
  by (subst reconnect.simps) simp

lemma reconnect_ok:
  "outcome k \<Longrightarrow> reconnect outcome k False tr = Some (tr @ attempt_ok)"
  by (subst reconnect.simps) (simp add: reconnect_connected)

lemma reconnect_failed:
  "\<not> outcome k \<Longrightarrow>
   reconnect outcome k False tr = reconnect outcome (Suc k) False (tr @ attempt_failed)"
  by (subst reconnect.simps) simp

lemma reconnect_after_failures:
  "(\<And>j. j < n \<Longrightarrow> \<not> outcome (k + j)) \<Longrightarrow> outcome (k + n) \<Longrightarrow>
   reconnect outcome k False tr =
     Some (tr @ concat (replicate n attempt_failed) @ attempt_ok)"
proof (induction n arbitrary: k tr)
  case 0
  then show ?case by (simp add: reconnect_ok)
next
  case (Suc n)
  have f: "\<not> outcome k" using Suc.prems(1) [of 0] by simp
  have "reconnect outcome (Suc k) False (tr @ attempt_failed) =
      Some ((tr @ attempt_failed) @ concat (replicate n attempt_failed) @ attempt_ok)"
  proof (rule Suc.IH)
    fix j assume "j < n"
    then show "\<not> outcome (Suc k + j)" using Suc.prems(1) [of "Suc j"] by simp
  next
    show "outcome (Suc k + n)" using Suc.prems(2) by simp
  qed
  then show ?case using f by (simp add: reconnect_failed)
qed

lemma reconnect_Some_shape:
  assumes "reconnect outcome k conn tr = Some r"
  shows "if conn then r = tr
         else (\<exists>n. (\<forall>j<n. \<not> outcome (k + j)) \<and> outcome (k + n) \<and>
                r = tr @ concat (replicate n attempt_failed) @ attempt_ok)"
proof (rule reconnect.raw_induct
    [where P = "\<lambda>outcome k conn tr r. if conn then r = tr
         else (\<exists>n. (\<forall>j<n. \<not> outcome (k + j)) \<and> outcome (k + n) \<and>
                r = tr @ concat (replicate n attempt_failed) @ attempt_ok)", OF _ assms])
  fix f :: "(nat \<Rightarrow> bool) \<Rightarrow> nat \<Rightarrow> bool \<Rightarrow> action list \<Rightarrow> action list option"
  fix outcome k conn tr r
  assume IH: "\<And>outcome k conn tr r. f outcome k conn tr = Some r \<Longrightarrow>
      (if conn then r = tr
       else (\<exists>n. (\<forall>j<n. \<not> outcome (k + j)) \<and> outcome (k + n) \<and>
              r = tr @ concat (replicate n attempt_failed) @ attempt_ok))"
  assume body: "(if conn then Some tr
      else if outcome k then f outcome (Suc k) True (tr @ attempt_ok)
      else f outcome (Suc k) False (tr @ attempt_failed)) = Some r"
  show "if conn then r = tr
       else (\<exists>n. (\<forall>j<n. \<not> outcome (k + j)) \<and> outcome (k + n) \<and>
              r = tr @ concat (replicate n attempt_failed) @ attempt_ok)"
  proof (cases conn)
    case True
    then show ?thesis using body by simp
  next
    case False
    show ?thesis
    proof (cases "outcome k")
      case True
      with False body have "f outcome (Suc k) True (tr @ attempt_ok) = Some r" by simp
      from IH [OF this] have "r = tr @ attempt_ok" by simp
      then have "(\<forall>j<0::nat. \<not> outcome (k + j)) \<and> outcome (k + 0) \<and>
                r = tr @ concat (replicate 0 attempt_failed) @ attempt_ok"
        using True by simp
      then show ?thesis using False by (simp only: if_False) blast
    next
      case nk: False
      with False body have "f outcome (Suc k) False (tr @ attempt_failed) = Some r" by simp
      from IH [OF this] obtain n where
        n: "\<forall>j<n. \<not> outcome (Suc k + j)" "outcome (Suc k + n)"
           "r = (tr @ attempt_failed) @ concat (replicate n attempt_failed) @ attempt_ok"
        by auto
      have "\<forall>j<Suc n. \<not> outcome (k + j)"
      proof (intro allI impI)
        fix j assume "j < Suc n"
        then show "\<not> outcome (k + j)" using nk n(1) by (cases j) auto
      qed
      moreover have "outcome (k + Suc n)" using n(2) by simp
      moreover have "r = tr @ concat (replicate (Suc n) attempt_failed) @ attempt_ok"
        using n(3) by simp
      ultimately show ?thesis using False by (simp only: if_False) blast
    qed
  qed
qed

lemma reconnect_never:
  assumes "\<And>j. \<not> outcome j"
  shows "reconnect outcome k False tr = None"
proof (cases "reconnect outcome k False tr")
  case None
  then show ?thesis .
next
  case (Some r)
  from reconnect_Some_shape [OF this] assms show ?thesis by simp
qed

section \<open>The parts of one pass\<close>

lemma led_pins_differ: "LED_GREEN \<noteq> LED_RED"
  by (simp add: LED_GREEN_def LED_RED_def)

lemma state_changes_Cons [simp]:
  "state_changes [] = []"
  "state_changes (a # xs) =
     (if a = garage_opened \<or> a = garage_closed then a # state_changes xs
      else state_changes xs)"
  by (simp_all add: state_changes_def)

lemma distance_logs_Cons [simp]:
  "distance_logs [] = []"
  "distance_logs (a # xs) =
     (if a = Print (Text ''New distance '') then a # distance_logs xs else distance_logs xs)"
  by (simp_all add: distance_logs_def)

lemma publishes_Cons [simp]:
  "publishes [] = []"
  "publishes (a # xs) = (if is_publish a then a # publishes xs else publishes xs)"
  by (simp_all add: publishes_def)

lemma writes_Cons [simp]:
  "writes [] = []"
  "writes (a # xs) = (if is_write a then a # writes xs else writes xs)"
  by (simp_all add: writes_def)

lemma state_changes_append [simp]:
  "state_changes (xs @ ys) = state_changes xs @ state_changes ys"
  by (simp add: state_changes_def)

lemma distance_logs_append [simp]:
  "distance_logs (xs @ ys) = distance_logs xs @ distance_logs ys"
  by (simp add: distance_logs_def)

lemma publishes_append [simp]: "publishes (xs @ ys) = publishes xs @ publishes ys"
  by (simp add: publishes_def)

lemma writes_append [simp]: "writes (xs @ ys) = writes xs @ writes ys"
  by (simp add: writes_def)

lemma topics_differ:
  "garage_opened \<noteq> garage_closed" "ping \<noteq> garage_opened" "ping \<noteq> garage_closed"
  "sensor_online \<noteq> garage_opened" "sensor_online \<noteq> garage_closed" "ping \<noteq> sensor_online"
  by (simp_all add: garage_opened_def garage_closed_def ping_def sensor_online_def
      MQTT_TOPIC_def MQTT_SENSORS_def)

lemma leds_update [simp]:
  "leds (s\<lparr>state := x\<rparr>) = leds s"
  by (simp add: leds_def)

lemma edge_fields:
  "oldstate (fst (edge s)) = oldstate s"
  "state (fst (edge s)) = state s"
  "olddistance (fst (edge s)) = olddistance s"
  "last_msg_sent (fst (edge s)) = last_msg_sent s"
  by (simp_all add: edge_def)

lemma edge_leds:
  "leds (fst (edge s)) =
     (if state s \<noteq> oldstate s then (state s, \<not> state s) else leds s)"
  using led_pins_differ by (simp add: edge_def leds_def)

lemma edge_state_changes:
  "state_changes (snd (edge s)) =
     (if state s = oldstate s then []
      else if state s then [garage_opened] else [garage_closed])"
  by (simp add: edge_def garage_opened_def garage_closed_def)

lemma edge_writes:
  "writes (snd (edge s)) =
     (if state s = oldstate s then []
      else [DigitalWrite LED_GREEN (state s), DigitalWrite LED_RED (\<not> state s)])"
  by (simp add: edge_def)

lemma edge_publishes:
  "set (publishes (snd (edge s))) \<subseteq> {garage_opened, garage_closed}"
  by (simp add: edge_def garage_opened_def garage_closed_def)

lemma edge_distance_logs: "distance_logs (snd (edge s)) = []"
  by (simp add: edge_def)

lemma sample_fields:
  "oldstate (fst (sample s i)) = door_of (analog i)"
  "state (fst (sample s i)) = door_of (analog i)"
  "olddistance (fst (sample s i)) = distance_of (analog i)"
  "last_msg_sent (fst (sample s i)) = last_msg_sent s"
  by (simp_all add: sample_def Let_def edge_fields door_of_def)

lemma sample_leds:
  "leds (fst (sample s i)) =
     (if door_of (analog i) \<noteq> oldstate s
      then (door_of (analog i), \<not> door_of (analog i)) else leds s)"
proof -
  have "leds (fst (sample s i)) = leds (fst (edge (s\<lparr>state := door_of (analog i)\<rparr>)))"
    by (simp add: sample_def Let_def door_of_def leds_def)
  also have "\<dots> = (if door_of (analog i) \<noteq> oldstate s
      then (door_of (analog i), \<not> door_of (analog i)) else leds s)"
    by (simp add: edge_leds)
  finally show ?thesis .
qed

lemma sample_trace:
  "snd (sample s i) =
     AnalogRead #
     (if fne (olddistance s) (distance_of (analog i))
      then [Print (Text ''New distance ''), Println (Num (distance_of (analog i)))] else []) @
     snd (edge (s\<lparr>state := door_of (analog i)\<rparr>)) @ [Delay SLEEPMS]"
  by (simp add: sample_def Let_def door_of_def)

lemma sample_state_changes:
  "state_changes (snd (sample s i)) =
     (if door_of (analog i) = oldstate s then []
      else if door_of (analog i) then [garage_opened] else [garage_closed])"
proof -
  have "state_changes (snd (sample s i)) =
      state_changes (snd (edge (s\<lparr>state := door_of (analog i)\<rparr>)))"
    unfolding sample_trace
    by (simp add: garage_opened_def garage_closed_def)
  then show ?thesis by (simp add: edge_state_changes)
qed

lemma sample_writes:
  "writes (snd (sample s i)) =
     (if door_of (analog i) = oldstate s then []
      else [DigitalWrite LED_GREEN (door_of (analog i)),
            DigitalWrite LED_RED (\<not> door_of (analog i))])"
proof -
  have "writes (snd (sample s i)) = writes (snd (edge (s\<lparr>state := door_of (analog i)\<rparr>)))"
    unfolding sample_trace by simp
  then show ?thesis by (simp add: edge_writes)
qed

lemma sample_distance_logs:
  "distance_logs (snd (sample s i)) =
     (if fne (olddistance s) (distance_of (analog i))
      then [Print (Text ''New distance '')] else [])"
  unfolding sample_trace by (simp add: edge_distance_logs)

lemma sample_publishes:
  "set (publishes (snd (sample s i))) \<subseteq> {garage_opened, garage_closed}"
proof -
  have "publishes (snd (sample s i)) =
      publishes (snd (edge (s\<lparr>state := door_of (analog i)\<rparr>)))"
    unfolding sample_trace by simp
  then show ?thesis using edge_publishes by simp
qed

lemma telemetry_fields:
  "oldstate (fst (telemetry s i)) = oldstate s"
  "olddistance (fst (telemetry s i)) = olddistance s"
  "pins (fst (telemetry s i)) = pins s"
  "last_msg_sent (fst (telemetry s i)) =
     (if 10000 <s millis i - last_msg_sent s then millis i else last_msg_sent s)"
  by (simp_all add: telemetry_def)

lemma telemetry_leds: "leds (fst (telemetry s i)) = leds s"
  by (simp add: leds_def telemetry_fields)

lemma telemetry_fires:
  "snd (telemetry s i) \<noteq> [] \<longleftrightarrow> 10000 <s millis i - last_msg_sent s"
  by (simp add: telemetry_def)

lemma telemetry_publishes:
  "publishes (snd (telemetry s i)) =
     (if 10000 <s millis i - last_msg_sent s
      then [ping, Publish MQTT_TEMP (Dtostrf (temperature i)),
            Publish MQTT_HUMI (Dtostrf (humidity i))]
      else [])"
  by (simp add: telemetry_def ping_def)

lemma telemetry_no_events:
  "state_changes (snd (telemetry s i)) = []"
  "distance_logs (snd (telemetry s i)) = []"
  "writes (snd (telemetry s i)) = []"
  "AnalogRead \<notin> set (snd (telemetry s i))"
  by (simp_all add: telemetry_def
      garage_opened_def garage_closed_def MQTT_TOPIC_def MQTT_SENSORS_def
      MQTT_TEMP_def MQTT_HUMI_def)

section \<open>The trace of a reconnection\<close>

lemma attempts_set:
  "set (concat (replicate n attempt_failed) @ attempt_ok) \<subseteq>
     set attempt_failed \<union> set attempt_ok"
  by (induction n) auto

lemma attempts_no_events:
  assumes "set tr \<subseteq> set attempt_failed \<union> set attempt_ok"
  shows "state_changes tr = []" "distance_logs tr = []" "writes tr = []"
    "AnalogRead \<notin> set tr" "set (publishes tr) \<subseteq> {sensor_online}" "ping \<notin> set tr"
proof -
  have a: "\<And>a. a \<in> set tr \<Longrightarrow> a \<in> set attempt_failed \<union> set attempt_ok"
    using assms by blast
  have sc: "\<forall>a \<in> set attempt_failed \<union> set attempt_ok.
      \<not> (a = garage_opened \<or> a = garage_closed)"
    by (simp add: attempt_failed_def attempt_ok_def garage_opened_def garage_closed_def)
  have dl: "\<forall>a \<in> set attempt_failed \<union> set attempt_ok. a \<noteq> Print (Text ''New distance '')"
    by (simp add: attempt_failed_def attempt_ok_def)
  have wr: "\<forall>a \<in> set attempt_failed \<union> set attempt_ok. \<not> is_write a"
    by (simp add: attempt_failed_def attempt_ok_def)
  have ar: "\<forall>a \<in> set attempt_failed \<union> set attempt_ok. a \<noteq> AnalogRead"
    by (simp add: attempt_failed_def attempt_ok_def)
  have pb: "\<forall>a \<in> set attempt_failed \<union> set attempt_ok. is_publish a \<longrightarrow> a = sensor_online"
    by (simp add: attempt_failed_def attempt_ok_def sensor_online_def)
  have pg: "\<forall>a \<in> set attempt_failed \<union> set attempt_ok. a \<noteq> ping"
    by (simp add: attempt_failed_def attempt_ok_def ping_def MQTT_TOPIC_def MQTT_SENSORS_def)
  show "state_changes tr = []"
    unfolding state_changes_def filter_empty_conv using a sc by blast
  show "distance_logs tr = []"
    unfolding distance_logs_def filter_empty_conv using a dl by blast
  show "writes tr = []"
    unfolding writes_def filter_empty_conv using a wr by blast
  show "AnalogRead \<notin> set tr" using a ar by blast
  show "set (publishes tr) \<subseteq> {sensor_online}"
    unfolding publishes_def using a pb by auto
  show "ping \<notin> set tr" using a pg by blast
qed

section \<open>One pass as a whole\<close>

lemma loop_link:
  "link i \<Longrightarrow> loop s i =
     Some (fst (sample (fst (telemetry s i)) i),
           ClientLoop # snd (telemetry s i) @ snd (sample (fst (telemetry s i)) i))"
  by (simp add: loop_def)

lemma loop_SomeD:
  assumes "loop s i = Some (s', tr)"
  obtains tr0 where
    "s' = fst (sample (fst (telemetry s i)) i)"
    "tr = tr0 @ ClientLoop # snd (telemetry s i) @ snd (sample (fst (telemetry s i)) i)"
    "set tr0 \<subseteq> set attempt_failed \<union> set attempt_ok"
proof (cases "link i")
  case True
  with assms have "s' = fst (sample (fst (telemetry s i)) i)"
    "tr = [] @ ClientLoop # snd (telemetry s i) @ snd (sample (fst (telemetry s i)) i)"
    by (simp_all add: loop_link)
  then show ?thesis using that [of "[]"] by simp
next
  case False
  with assms obtain tr0 where
    r: "reconnect (connects i) 0 False [] = Some tr0"
    and s': "s' = fst (sample (fst (telemetry s i)) i)"
    and tr: "tr = tr0 @ ClientLoop # snd (telemetry s i) @ snd (sample (fst (telemetry s i)) i)"
    by (auto simp: loop_def split: option.splits)
  from reconnect_Some_shape [OF r] obtain n where
    "tr0 = [] @ concat (replicate n attempt_failed) @ attempt_ok" by auto
  then have "set tr0 \<subseteq> set attempt_failed \<union> set attempt_ok"
    using attempts_set [of n] by simp
  with s' tr show ?thesis using that by blast
qed

lemma loop_fields:
  assumes "loop s i = Some (s', tr)"
  shows "oldstate s' = door_of (analog i)" "state s' = door_of (analog i)"
    "olddistance s' = distance_of (analog i)"
    "last_msg_sent s' = (if 10000 <s millis i - last_msg_sent s then millis i else last_msg_sent s)"
    "leds s' = (if door_of (analog i) \<noteq> oldstate s
                then (door_of (analog i), \<not> door_of (analog i)) else leds s)"
proof -
  from assms obtain tr0 where s': "s' = fst (sample (fst (telemetry s i)) i)"
    by (rule loop_SomeD)
  show "oldstate s' = door_of (analog i)" "state s' = door_of (analog i)"
    "olddistance s' = distance_of (analog i)"
    "last_msg_sent s' = (if 10000 <s millis i - last_msg_sent s then millis i else last_msg_sent s)"
    by (simp_all add: s' sample_fields telemetry_fields)
  show "leds s' = (if door_of (analog i) \<noteq> oldstate s
                then (door_of (analog i), \<not> door_of (analog i)) else leds s)"
    by (simp add: s' sample_leds telemetry_fields telemetry_leds)
qed

lemma loop_state_changes:
  assumes "loop s i = Some (s', tr)"
  shows "state_changes tr =
     (if door_of (analog i) = oldstate s then []
      else if door_of (analog i) then [garage_opened] else [garage_closed])"
proof -
  from assms obtain tr0 where
    tr: "tr = tr0 @ ClientLoop # snd (telemetry s i) @ snd (sample (fst (telemetry s i)) i)"
    and tr0: "set tr0 \<subseteq> set attempt_failed \<union> set attempt_ok"
    by (rule loop_SomeD)
  have "state_changes tr = state_changes (snd (sample (fst (telemetry s i)) i))"
    unfolding tr
    by (simp add: attempts_no_events(1) [OF tr0] telemetry_no_events garage_opened_def garage_closed_def)
  then show ?thesis by (simp add: sample_state_changes telemetry_fields)
qed

lemma loop_distance_logs:
  assumes "loop s i = Some (s', tr)"
  shows "distance_logs tr =
     (if fne (olddistance s) (distance_of (analog i))
      then [Print (Text ''New distance '')] else [])"
proof -
  from assms obtain tr0 where
    tr: "tr = tr0 @ ClientLoop # snd (telemetry s i) @ snd (sample (fst (telemetry s i)) i)"
    and tr0: "set tr0 \<subseteq> set attempt_failed \<union> set attempt_ok"
    by (rule loop_SomeD)
  have "distance_logs tr = distance_logs (snd (sample (fst (telemetry s i)) i))"
    unfolding tr
    by (simp add: attempts_no_events(2) [OF tr0] telemetry_no_events)
  then show ?thesis by (simp add: sample_distance_logs telemetry_fields)
qed

lemma loop_writes:
  assumes "loop s i = Some (s', tr)"
  shows "writes tr =
     (if door_of (analog i) = oldstate s then []
      else [DigitalWrite LED_GREEN (door_of (analog i)),
            DigitalWrite LED_RED (\<not> door_of (analog i))])"
proof -
  from assms obtain tr0 where
    tr: "tr = tr0 @ ClientLoop # snd (telemetry s i) @ snd (sample (fst (telemetry s i)) i)"
    and tr0: "set tr0 \<subseteq> set attempt_failed \<union> set attempt_ok"
    by (rule loop_SomeD)
  have "writes tr = writes (snd (sample (fst (telemetry s i)) i))"
    unfolding tr
    by (simp add: attempts_no_events(3) [OF tr0] telemetry_no_events)
  then show ?thesis by (simp add: sample_writes telemetry_fields)
qed

section \<open>Facts about the sample inputs\<close>

lemma tick_of_fields:
  "link (tick_of t raw) = True" "millis (tick_of t raw) = t" "analog (tick_of t raw) = raw"
  "humidity (tick_of t raw) = Fin 50" "temperature (tick_of t raw) = Fin 20"
  by (simp_all add: tick_of_def)

lemma boot_fields:
  "oldstate boot = True" "olddistance boot = Fin 0" "last_msg_sent boot = 0"
  "leds boot = (False, False)"
  by (simp_all add: boot_def setup_sketch_def power_on_def leds_def all_low_def)

lemma loop_tick_of:
  "loop s (tick_of t raw) =
     Some (fst (sample (fst (telemetry s (tick_of t raw))) (tick_of t raw)),
           ClientLoop # snd (telemetry s (tick_of t raw)) @
           snd (sample (fst (telemetry s (tick_of t raw))) (tick_of t raw)))"
  by (rule loop_link) (simp add: tick_of_fields)

lemma loop_Some_the: "loop s i = Some r \<Longrightarrow> loop s i = Some (fst (the (loop s i)), snd (the (loop s i)))"
  by simp

section \<open>Classification and state changes\<close>

text \<open>
  C1, as the claim states it, fails: \<open>setup\<close> sets the previous state to open, so a
  door that is closed on the first pass (sample 1023, distance 6) is reported as a change
  and \<open>garage_closed\<close> is published.
\<close>

theorem first_tick_closed_is_published:
  "map_option (state_changes \<circ> snd) (loop boot (tick_of 0 1023)) = Some [garage_closed]"
proof -
  obtain s' tr where l: "loop boot (tick_of 0 1023) = Some (s', tr)"
    using loop_tick_of [of boot 0 1023] by simp
  from loop_state_changes [OF l] have "state_changes tr = [garage_closed]"
    by (simp add: tick_of_fields boot_fields door_1023)
  with l show ?thesis by simp
qed

text \<open>
  C1, amended: on the first pass after \<open>setup\<close> the previous state is the value open
  that \<open>setup\<close> wrote. No state change is published when the door is seen open;
  \<open>garage_closed\<close> is published when it is seen closed. Either way the state and the
  distance of this pass are what the next pass compares with.
\<close>

theorem first_tick_compares_with_open:
  "loop (setup_sketch (power_on lv)) i = Some (s', tr) \<Longrightarrow>
   state_changes tr = (if door_of (analog i) then [] else [garage_closed]) \<and>
   oldstate s' = door_of (analog i) \<and>
   olddistance s' = distance_of (analog i)"
proof -
  assume l: "loop (setup_sketch (power_on lv)) i = Some (s', tr)"
  have "oldstate (setup_sketch (power_on lv)) = True" by (simp add: setup_sketch_def)
  with loop_state_changes [OF l] loop_fields(1,3) [OF l] show ?thesis by simp
qed

theorem first_tick_compares_with_open_witness:
  "loop (setup_sketch (power_on all_low)) (tick_of 0 500) =
     Some (fst (the (loop boot (tick_of 0 500))), snd (the (loop boot (tick_of 0 500)))) \<and>
   state_changes (snd (the (loop boot (tick_of 0 500)))) = [] \<and>
   oldstate (fst (the (loop boot (tick_of 0 500)))) = True \<and>
   olddistance (fst (the (loop boot (tick_of 0 500)))) = Fin 22"
proof -
  have l: "loop (setup_sketch (power_on all_low)) (tick_of 0 500) =
     Some (fst (the (loop boot (tick_of 0 500))), snd (the (loop boot (tick_of 0 500))))"
    using loop_tick_of [of boot 0 500] by (simp add: boot_def)
  from first_tick_compares_with_open [OF l] l show ?thesis
    by (simp add: tick_of_fields door_500 distance_500)
qed

text \<open>
  C2, as the claim states it, fails: the sample 0 is not special-cased. \<open>pow\<close> has a pole
  at 0, the distance is plus infinity, which is not below 20, and the door is classified
  open.
\<close>

theorem raw_zero_is_classified_open:
  "map_option (state \<circ> fst) (loop boot (tick_of 0 0)) = Some True \<and>
   map_option (olddistance \<circ> fst) (loop boot (tick_of 0 0)) = Some PInf"
proof -
  obtain s' tr where l: "loop boot (tick_of 0 0) = Some (s', tr)"
    using loop_tick_of [of boot 0 0] by simp
  from loop_fields(2,3) [OF l] have "state s' = True" "olddistance s' = PInf"
    by (simp_all add: tick_of_fields door_0 distance_of_zero)
  with l show ?thesis by simp
qed

text \<open>
  C2, amended: for the sample 0 no numeric error arises and the pass goes on: the
  distance is plus infinity and the door state is open; there is no out-of-range flag. A
  pass whose client is connected completes with that state.
\<close>

theorem raw_zero_gives_infinity_and_open:
  "analog i = 0 \<Longrightarrow>
   distance_of (analog i) = PInf \<and>
   state (fst (sample s i)) \<and>
   olddistance (fst (sample s i)) = PInf \<and>
   (link i \<longrightarrow> (\<exists>s' tr. loop s i = Some (s', tr) \<and> state s' \<and> olddistance s' = PInf))"
proof -
  assume z: "analog i = 0"
  have a: "state (fst (sample s i))" "olddistance (fst (sample s i)) = PInf" for s
    by (simp_all add: sample_fields z door_0 distance_of_zero)
  have "\<exists>s' tr. loop s i = Some (s', tr) \<and> state s' \<and> olddistance s' = PInf" if "link i"
    using loop_link [OF that, of s] a by simp
  then show ?thesis using a z by (simp add: distance_of_zero)
qed

theorem raw_zero_gives_infinity_and_open_witness:
  "analog (tick_of 0 0) = 0 \<and> link (tick_of 0 0) \<and>
   state (fst (sample boot (tick_of 0 0))) \<and>
   olddistance (fst (sample boot (tick_of 0 0))) = PInf \<and>
   (\<exists>s' tr. loop boot (tick_of 0 0) = Some (s', tr) \<and> state s' \<and> olddistance s' = PInf)"
proof -
  have z: "analog (tick_of 0 0) = 0" by (simp add: tick_of_fields)
  from raw_zero_gives_infinity_and_open [OF z, of boot] show ?thesis
    by (simp add: tick_of_fields)
qed

text \<open>
  C3: for a positive sample the distance is the calibration formula rounded to the nearest
  integer (halfway cases away from zero, as \<open>roundf\<close> does), and the door state is open
  exactly when that distance is at least 20. The sample 500 has distance 22 and is open.
  Finite floating-point values are exact reals here.
\<close>

theorem distance_formula_and_threshold:
  "0 < analog i \<Longrightarrow>
   olddistance (fst (sample s i)) =
     Fin (of_int (round_away (10650.08 * real_of_int (analog i) powr (- 0.935) - 10))) \<and>
   state (fst (sample s i)) =
     (20 \<le> round_away (10650.08 * real_of_int (analog i) powr (- 0.935) - 10)) \<and>
   (analog i = 500 \<longrightarrow>
      state (fst (sample s i)) \<and> olddistance (fst (sample s i)) = Fin 22)"
proof -
  assume p: "0 < analog i"
  have d: "distance_of (analog i) =
      Fin (of_int (round_away (10650.08 * real_of_int (analog i) powr (- 0.935) - 10)))"
    using p by (rule distance_of_positive)
  have "door_of (analog i) =
      (20 \<le> round_away (10650.08 * real_of_int (analog i) powr (- 0.935) - 10))"
    unfolding door_of_def d by simp
  moreover have "door_of (analog i) \<and> distance_of (analog i) = Fin 22" if "analog i = 500"
    using that by (simp add: door_500 distance_500)
  ultimately show ?thesis using d by (simp add: sample_fields)
qed

theorem distance_formula_and_threshold_witness:
  "0 < analog (tick_of 0 500) \<and>
   state (fst (sample boot (tick_of 0 500))) \<and>
   olddistance (fst (sample boot (tick_of 0 500))) = Fin 22"
proof -
  have p: "0 < analog (tick_of 0 500)" by (simp add: tick_of_fields)
  from distance_formula_and_threshold [OF p, of boot]
  have "analog (tick_of 0 500) = 500 \<longrightarrow>
      state (fst (sample boot (tick_of 0 500))) \<and>
      olddistance (fst (sample boot (tick_of 0 500))) = Fin 22"
    by (elim conjE)
  then show ?thesis by (simp add: tick_of_fields)
qed

text \<open>
  C4: on a pass that follows another pass, a state change is published exactly when the
  door state of this pass differs from the door state of the pass before: one
  \<open>garage_opened\<close> for closed then open, one \<open>garage_closed\<close> for open then closed,
  nothing when the two agree. The previous state and the previous distance are those of
  this pass afterwards, whether or not a change was published.
\<close>

theorem edge_iff_state_differs:
  "loop s i1 = Some (s1, tr1) \<Longrightarrow> loop s1 i2 = Some (s2, tr2) \<Longrightarrow>
   state_changes tr2 =
     (if door_of (analog i2) = door_of (analog i1) then []
      else if door_of (analog i2) then [garage_opened] else [garage_closed]) \<and>
   oldstate s2 = door_of (analog i2) \<and>
   olddistance s2 = distance_of (analog i2)"
proof -
  assume l1: "loop s i1 = Some (s1, tr1)" and l2: "loop s1 i2 = Some (s2, tr2)"
  have "oldstate s1 = door_of (analog i1)" using l1 by (rule loop_fields(1))
  with loop_state_changes [OF l2] loop_fields(1,3) [OF l2] show ?thesis by simp
qed

theorem edge_iff_state_differs_witness:
  "loop boot (tick_of 0 1023) = Some (the (loop boot (tick_of 0 1023))) \<and>
   loop (fst (the (loop boot (tick_of 0 1023)))) (tick_of 900 500) =
     Some (the (loop (fst (the (loop boot (tick_of 0 1023)))) (tick_of 900 500))) \<and>
   state_changes (snd (the (loop (fst (the (loop boot (tick_of 0 1023)))) (tick_of 900 500)))) =
     [garage_opened] \<and>
   oldstate (fst (the (loop (fst (the (loop boot (tick_of 0 1023)))) (tick_of 900 500))))"
proof -
  let ?s1 = "fst (the (loop boot (tick_of 0 1023)))"
  have l1: "loop boot (tick_of 0 1023) = Some (?s1, snd (the (loop boot (tick_of 0 1023))))"
    using loop_tick_of [of boot 0 1023] by simp
  have l2: "loop ?s1 (tick_of 900 500) =
      Some (fst (the (loop ?s1 (tick_of 900 500))), snd (the (loop ?s1 (tick_of 900 500))))"
    using loop_tick_of [of ?s1 900 500] by simp
  from edge_iff_state_differs [OF l1 l2] l1 l2 show ?thesis
    by (simp add: tick_of_fields door_500 door_1023)
qed

section \<open>The periodic part over many passes\<close>

lemma sless_10000: "10000 <s (w :: 32 word) \<longleftrightarrow> 10000 < sint w"
  by (simp add: word_sless_alt)

lemma telemetry_idle: "snd (telemetry s i) = [] \<Longrightarrow> fst (telemetry s i) = s"
  by (simp add: telemetry_def split: if_splits)

lemma telemetry_twice: "snd (telemetry (fst (telemetry s i)) i) = []"
  by (simp add: telemetry_def word_sless_alt)

lemma telemetry_pings:
  "filter (\<lambda>a. a = ping) (snd (telemetry s i)) =
     (if 10000 <s millis i - last_msg_sent s then [ping] else [])"
  by (simp add: telemetry_def ping_def MQTT_SENSORS_def MQTT_TEMP_def MQTT_HUMI_def)

lemma spaced_fire_times: "spaced (last_msg_sent s # fire_times s js)"
proof (induction js arbitrary: s)
  case Nil
  show ?case by simp
next
  case (Cons i js)
  show ?case
  proof (cases "snd (telemetry s i) = []")
    case True
    then show ?thesis using Cons.IH [of s] by (simp add: telemetry_idle)
  next
    case False
    then have f: "10000 <s millis i - last_msg_sent s" by (simp add: telemetry_fires)
    then have "last_msg_sent (fst (telemetry s i)) = millis i" by (simp add: telemetry_fields)
    then have "spaced (millis i # fire_times (fst (telemetry s i)) js)"
      using Cons.IH [of "fst (telemetry s i)"] by simp
    then show ?thesis using False f by simp
  qed
qed

lemma loop_pings:
  assumes "loop s i = Some (s', tr)"
  shows "filter (\<lambda>a. a = ping) tr =
     (if 10000 <s millis i - last_msg_sent s then [ping] else [])"
proof -
  from assms obtain tr0 where
    tr: "tr = tr0 @ ClientLoop # snd (telemetry s i) @ snd (sample (fst (telemetry s i)) i)"
    and tr0: "set tr0 \<subseteq> set attempt_failed \<union> set attempt_ok"
    by (rule loop_SomeD)
  have a: "filter (\<lambda>a. a = ping) tr0 = []"
    unfolding filter_empty_conv using attempts_no_events(6) [OF tr0] by blast
  have "ping \<notin> set (publishes (snd (sample (fst (telemetry s i)) i)))"
    using sample_publishes [of "fst (telemetry s i)" i] topics_differ by auto
  then have "ping \<notin> set (snd (sample (fst (telemetry s i)) i))"
    by (simp add: publishes_def ping_def)
  then have b: "filter (\<lambda>a. a = ping) (snd (sample (fst (telemetry s i)) i)) = []"
    unfolding filter_empty_conv by blast
  show ?thesis unfolding tr by (simp add: a b telemetry_pings) (simp add: ping_def)
qed

text \<open>
  C5, as the claim states it, fails at the boundary: the test in \<open>loop\<close> is strict, so
  with 10000 ms elapsed since the last report nothing is sent.
\<close>

theorem no_fire_at_exactly_interval:
  "10000 \<le> sint (millis (tick_of 10000 500) - last_msg_sent boot) \<and>
   snd (telemetry boot (tick_of 10000 500)) = []"
  by (simp add: telemetry_def tick_of_fields boot_fields word_sless_alt)

text \<open>
  C5, amended: the periodic part fires on a pass exactly when now minus the time of the
  last fire, as a signed 32-bit difference, is greater than 10000 ms (not when it equals
  10000); on firing the time of the last fire becomes now. A pass fires at most once,
  asking again at the same time does not fire, a pass that completes holds one ping when
  it fires and none otherwise, and over any sequence of passes each fire is more than
  10000 ms after the one before.
\<close>

theorem telemetry_fires_strictly_after_interval:
  "(snd (telemetry s i) \<noteq> [] \<longleftrightarrow> 10000 < sint (millis i - last_msg_sent s)) \<and>
   last_msg_sent (fst (telemetry s i)) =
     (if 10000 < sint (millis i - last_msg_sent s) then millis i else last_msg_sent s) \<and>
   snd (telemetry (fst (telemetry s i)) i) = [] \<and>
   spaced (last_msg_sent s # fire_times s js) \<and>
   (\<forall>s' tr. loop s i = Some (s', tr) \<longrightarrow>
      filter (\<lambda>a. a = ping) tr =
        (if 10000 < sint (millis i - last_msg_sent s) then [ping] else []) \<and>
      last_msg_sent s' =
        (if 10000 < sint (millis i - last_msg_sent s) then millis i else last_msg_sent s))"
  using telemetry_fires [of s i] telemetry_fields(4) [of s i] telemetry_twice [of s i]
    spaced_fire_times [of s js] loop_pings [of s i] loop_fields(4) [of s i]
  by (simp add: sless_10000)

theorem telemetry_fires_strictly_after_interval_witness:
  "loop boot (tick_of 10001 500) = Some (the (loop boot (tick_of 10001 500))) \<and>
   10000 < sint (millis (tick_of 10001 500) - last_msg_sent boot) \<and>
   snd (telemetry boot (tick_of 10001 500)) \<noteq> [] \<and>
   filter (\<lambda>a. a = ping) (snd (the (loop boot (tick_of 10001 500)))) = [ping] \<and>
   last_msg_sent (fst (the (loop boot (tick_of 10001 500)))) = 10001"
proof -
  obtain s' tr where l: "loop boot (tick_of 10001 500) = Some (s', tr)"
    using loop_tick_of [of boot 10001 500] by simp
  have d: "10000 < sint (millis (tick_of 10001 500) - last_msg_sent boot)"
    by (simp add: tick_of_fields boot_fields)
  note t = telemetry_fires_strictly_after_interval [of boot "tick_of 10001 500" "[]"]
  from t d have a: "snd (telemetry boot (tick_of 10001 500)) \<noteq> []" by blast
  from t l d have "filter (\<lambda>a. a = ping) tr = [ping] \<and> last_msg_sent s' = 10001"
    by (simp add: tick_of_fields)
  with a d l show ?thesis by simp
qed

section \<open>What a reconnection publishes and how long it waits\<close>

lemma delays_simps [simp]:
  "delays [] = []"
  "delays (xs @ ys) = delays xs @ delays ys"
  by (simp_all add: delays_def)


lemma publishes_attempts:
  "publishes attempt_failed = []" "publishes attempt_ok = [sensor_online]"
  by (simp_all add: attempt_failed_def attempt_ok_def sensor_online_def)





text \<open>
  C7: whenever the periodic part fires it publishes three messages, whatever the two
  sensor reads returned: the ping, the temperature and the humidity, each reading as
  \<open>dtostrf\<close> formats it. A read that failed (not-a-number) is published like any other,
  as the text \<open>dtostrf\<close> gives for not-a-number; nothing is skipped.
\<close>

theorem telemetry_publishes_every_reading:
  "10000 <s millis i - last_msg_sent s \<Longrightarrow>
   publishes (snd (telemetry s i)) =
     [ping, Publish MQTT_TEMP (Dtostrf (temperature i)),
      Publish MQTT_HUMI (Dtostrf (humidity i))] \<and>
   (humidity i = NaN \<longrightarrow> Publish MQTT_HUMI (Dtostrf NaN) \<in> set (snd (telemetry s i))) \<and>
   (temperature i = NaN \<longrightarrow> Publish MQTT_TEMP (Dtostrf NaN) \<in> set (snd (telemetry s i)))"
  by (simp add: telemetry_publishes) (simp add: telemetry_def)

theorem telemetry_publishes_every_reading_witness:
  "10000 <s millis tick_dht_failed - last_msg_sent boot \<and>
   humidity tick_dht_failed = NaN \<and>
   publishes (snd (telemetry boot tick_dht_failed)) =
     [ping, Publish MQTT_TEMP (Dtostrf (Fin 20)), Publish MQTT_HUMI (Dtostrf NaN)] \<and>
   Publish MQTT_HUMI (Dtostrf NaN) \<in> set (snd (telemetry boot tick_dht_failed)) \<and>
   temperature (tick_dht_failed\<lparr>temperature := NaN\<rparr>) = NaN \<and>
   Publish MQTT_TEMP (Dtostrf NaN) \<in>
     set (snd (telemetry boot (tick_dht_failed\<lparr>temperature := NaN\<rparr>)))"
proof -
  have f: "10000 <s millis tick_dht_failed - last_msg_sent boot"
    by (simp add: tick_dht_failed_def tick_of_def boot_fields word_sless_alt)
  have g: "10000 <s millis (tick_dht_failed\<lparr>temperature := NaN\<rparr>) - last_msg_sent boot"
    using f by simp
  have h: "humidity tick_dht_failed = NaN"
    by (simp add: tick_dht_failed_def)
  note t = telemetry_publishes_every_reading [OF f]
    and u = telemetry_publishes_every_reading [OF g]
  from t h have "publishes (snd (telemetry boot tick_dht_failed)) =
      [ping, Publish MQTT_TEMP (Dtostrf (Fin 20)), Publish MQTT_HUMI (Dtostrf NaN)] \<and>
    Publish MQTT_HUMI (Dtostrf NaN) \<in> set (snd (telemetry boot tick_dht_failed))"
    by (simp add: tick_dht_failed_def tick_of_def)
  moreover from u have "Publish MQTT_TEMP (Dtostrf NaN) \<in>
      set (snd (telemetry boot (tick_dht_failed\<lparr>temperature := NaN\<rparr>)))"
    by simp
  ultimately show ?thesis using f h by simp
qed

section \<open>Distances that can be compared\<close>

lemma distance_of_not_NaN: "0 \<le> raw \<Longrightarrow> distance_of raw \<noteq> NaN"
proof (cases "raw = 0")
  case True
  then show ?thesis by (simp add: distance_of_zero)
next
  case False
  assume "0 \<le> raw"
  with False have "0 < raw" by simp
  then show ?thesis by (simp add: distance_of_positive)
qed

lemma fne_plain: "a \<noteq> NaN \<Longrightarrow> b \<noteq> NaN \<Longrightarrow> fne a b \<longleftrightarrow> a \<noteq> b"
  by (cases a; cases b) simp_all

text \<open>
  On the first pass the previous distance is the zero of static initialisation: the
  message is logged exactly when the first distance is not 0.
\<close>

lemma first_tick_distance_log:
  "loop (setup_sketch (power_on lv)) i = Some (s', tr) \<Longrightarrow>
   (distance_logs tr \<noteq> [] \<longleftrightarrow> fne (Fin 0) (distance_of (analog i)))"
proof -
  assume l: "loop (setup_sketch (power_on lv)) i = Some (s', tr)"
  have "olddistance (setup_sketch (power_on lv)) = Fin 0"
    by (simp add: setup_sketch_def power_on_def)
  with loop_distance_logs [OF l] show ?thesis by simp
qed

lemma consecutive_distance_log:
  assumes "loop s i1 = Some (s1, tr1)" "loop s1 i2 = Some (s2, tr2)"
  shows "distance_logs tr2 \<noteq> [] \<longleftrightarrow>
     fne (distance_of (analog i1)) (distance_of (analog i2))"
proof -
  have "olddistance s1 = distance_of (analog i1)" using assms(1) by (rule loop_fields(3))
  with loop_distance_logs [OF assms(2)] show ?thesis by simp
qed

text \<open>
  C8, as the claim states it, fails on the first pass: no pass came before it, and the
  distance is compared with the global \<open>olddistance\<close> that nothing has written yet, the
  zero of static initialisation. With the sample 500 (distance 22) the message is logged.
\<close>

theorem first_tick_logs_against_zero:
  "olddistance boot = Fin 0 \<and>
   map_option (distance_logs \<circ> snd) (loop boot (tick_of 0 500)) =
     Some [Print (Text ''New distance '')]"
proof -
  obtain s' tr where l: "loop boot (tick_of 0 500) = Some (s', tr)"
    using loop_tick_of [of boot 0 500] by simp
  from loop_distance_logs [OF l] have "distance_logs tr = [Print (Text ''New distance '')]"
    by (simp add: tick_of_fields boot_fields distance_500)
  with l show ?thesis by (simp add: boot_fields)
qed

text \<open>
  C8, amended: on every pass that follows another pass, the distance message is logged
  exactly when the rounded distance of this pass differs, as the C comparison \<open>!=\<close> has
  it, from the rounded distance of the pass before (the global \<open>olddistance\<close>, which
  every pass writes; the local \<open>newdistance\<close> hides a global that nothing reads),
  whatever the door state does. On the first pass after \<open>setup\<close> the message is logged
  exactly when the rounded distance differs from 0, the value static initialisation gave
  \<open>olddistance\<close>. For samples that are not negative the comparison is plain
  inequality.
\<close>

theorem distance_log_iff_distance_changed:
  "(loop s i1 = Some (s1, tr1) \<and> loop s1 i2 = Some (s2, tr2) \<longrightarrow>
      (distance_logs tr2 \<noteq> [] \<longleftrightarrow>
         fne (distance_of (analog i1)) (distance_of (analog i2))) \<and>
      (0 \<le> analog i1 \<and> 0 \<le> analog i2 \<longrightarrow>
         (distance_logs tr2 \<noteq> [] \<longleftrightarrow>
            distance_of (analog i1) \<noteq> distance_of (analog i2)))) \<and>
   (loop (setup_sketch (power_on lv)) i = Some (s', tr) \<longrightarrow>
      (distance_logs tr \<noteq> [] \<longleftrightarrow> fne (Fin 0) (distance_of (analog i))) \<and>
      (0 \<le> analog i \<longrightarrow>
         (distance_logs tr \<noteq> [] \<longleftrightarrow> distance_of (analog i) \<noteq> Fin 0)))"
proof (intro conjI impI)
  assume l: "loop s i1 = Some (s1, tr1) \<and> loop s1 i2 = Some (s2, tr2)"
  then show a: "distance_logs tr2 \<noteq> [] \<longleftrightarrow>
      fne (distance_of (analog i1)) (distance_of (analog i2))"
    using consecutive_distance_log [of s i1 s1 tr1 i2 s2 tr2] by blast
  assume "0 \<le> analog i1 \<and> 0 \<le> analog i2"
  then have "fne (distance_of (analog i1)) (distance_of (analog i2)) \<longleftrightarrow>
      distance_of (analog i1) \<noteq> distance_of (analog i2)"
    by (intro fne_plain distance_of_not_NaN) simp_all
  with a show "distance_logs tr2 \<noteq> [] \<longleftrightarrow>
      distance_of (analog i1) \<noteq> distance_of (analog i2)" by simp
next
  assume l: "loop (setup_sketch (power_on lv)) i = Some (s', tr)"
  then show b: "distance_logs tr \<noteq> [] \<longleftrightarrow> fne (Fin 0) (distance_of (analog i))"
    by (rule first_tick_distance_log)
  assume "0 \<le> analog i"
  then have "fne (Fin 0) (distance_of (analog i)) \<longleftrightarrow> Fin 0 \<noteq> distance_of (analog i)"
    by (intro fne_plain distance_of_not_NaN) simp_all
  with b show "distance_logs tr \<noteq> [] \<longleftrightarrow> distance_of (analog i) \<noteq> Fin 0" by auto
qed

theorem distance_log_iff_distance_changed_witness:
  "loop boot (tick_of 0 1023) = Some (the (loop boot (tick_of 0 1023))) \<and>
   loop (fst (the (loop boot (tick_of 0 1023)))) (tick_of 900 500) =
     Some (the (loop (fst (the (loop boot (tick_of 0 1023)))) (tick_of 900 500))) \<and>
   0 \<le> analog (tick_of 0 1023) \<and> 0 \<le> analog (tick_of 900 500) \<and>
   distance_of (analog (tick_of 0 1023)) \<noteq> distance_of (analog (tick_of 900 500)) \<and>
   distance_logs (snd (the (loop (fst (the (loop boot (tick_of 0 1023)))) (tick_of 900 500))))
     \<noteq> [] \<and>
   loop (setup_sketch (power_on all_low)) (tick_of 0 1023) =
     Some (the (loop boot (tick_of 0 1023))) \<and>
   distance_of (analog (tick_of 0 1023)) \<noteq> Fin 0 \<and>
   distance_logs (snd (the (loop boot (tick_of 0 1023)))) \<noteq> []"
proof -
  let ?r1 = "the (loop boot (tick_of 0 1023))"
  let ?s1 = "fst ?r1"
  let ?r2 = "the (loop ?s1 (tick_of 900 500))"
  have l1: "loop boot (tick_of 0 1023) = Some (?s1, snd ?r1)"
    using loop_tick_of [of boot 0 1023] by simp
  have l2: "loop ?s1 (tick_of 900 500) = Some (fst ?r2, snd ?r2)"
    using loop_tick_of [of ?s1 900 500] by simp
  have l0: "loop (setup_sketch (power_on all_low)) (tick_of 0 1023) = Some (?s1, snd ?r1)"
    using l1 by (simp add: boot_def)
  have d: "distance_of (analog (tick_of 0 1023)) \<noteq> distance_of (analog (tick_of 900 500))"
    by (simp add: tick_of_fields distance_500 distance_1023)
  have z: "distance_of (analog (tick_of 0 1023)) \<noteq> Fin 0"
    by (simp add: tick_of_fields distance_1023)
  have n: "0 \<le> analog (tick_of 0 1023)" "0 \<le> analog (tick_of 900 500)"
    by (simp_all add: tick_of_fields)
  note t = distance_log_iff_distance_changed
    [of boot "tick_of 0 1023" ?s1 "snd ?r1" "tick_of 900 500" "fst ?r2" "snd ?r2"
        all_low "tick_of 0 1023" ?s1 "snd ?r1"]
  from t l1 l2 n d have a: "distance_logs (snd ?r2) \<noteq> []" by blast
  from t l0 n(1) z have b: "distance_logs (snd ?r1) \<noteq> []" by blast
  from l1 have l1': "loop boot (tick_of 0 1023) = Some ?r1" by simp
  from l2 have l2': "loop ?s1 (tick_of 900 500) = Some ?r2" by simp
  from l0 have l0': "loop (setup_sketch (power_on all_low)) (tick_of 0 1023) = Some ?r1"
    by simp
  show ?thesis using l1' l2' n d a l0' z b by (intro conjI) assumption+
qed

section \<open>The indicators over many passes\<close>

lemma loop_keeps_indicators:
  assumes "leds s = (oldstate s, \<not> oldstate s)" "loop s i = Some (s', tr)"
  shows "leds s' = (oldstate s', \<not> oldstate s')"
  using loop_fields(1,5) [OF assms(2)] assms(1) by auto

lemma run_keeps_indicators:
  "leds s = (oldstate s, \<not> oldstate s) \<Longrightarrow> run s js = Some s' \<Longrightarrow>
   leds s' = (oldstate s', \<not> oldstate s')"
proof (induction js arbitrary: s)
  case Nil
  then show ?case by simp
next
  case (Cons i js)
  from Cons.prems(2) obtain s1 tr where l: "loop s i = Some (s1, tr)" and r: "run s1 js = Some s'"
    by (auto split: option.splits)
  from loop_keeps_indicators [OF Cons.prems(1) l] r show ?case by (rule Cons.IH)
qed

lemma run_tick_of:
  "run s (tick_of t raw # js) =
     run (fst (sample (fst (telemetry s (tick_of t raw))) (tick_of t raw))) js"
  by (simp add: loop_tick_of)

text \<open>
  C9, as the claim states it, fails: \<open>setup\<close> writes no level to either indicator and
  \<open>loop\<close> writes them only on a state change. With both pins low at power-on and the
  door open from the start, two passes leave both indicators low.
\<close>

theorem no_indicator_before_first_edge:
  "map_option leds (run boot [tick_of 0 500, tick_of 900 500]) = Some (False, False)"
  by (simp add: run_tick_of sample_leds sample_fields telemetry_fields telemetry_leds
      tick_of_fields boot_fields door_500 del: run.simps(2))

lemma loop_without_edge:
  assumes "loop s i = Some (s', tr)" "door_of (analog i) = oldstate s"
  shows "writes tr = []" "leds s' = leds s" "oldstate s' = oldstate s"
  using loop_writes [OF assms(1)] loop_fields(1,5) [OF assms(1)] assms(2) by simp_all

lemma run_trace_without_edge:
  "\<forall>j \<in> set ks. door_of (analog j) = oldstate s \<Longrightarrow> run_trace s ks = Some (s', tr) \<Longrightarrow>
   writes tr = [] \<and> leds s' = leds s \<and> oldstate s' = oldstate s"
proof (induction ks arbitrary: s tr)
  case Nil
  then show ?case by simp
next
  case (Cons i ks)
  from Cons.prems(2) obtain s1 tr1 tr2 where
    l: "loop s i = Some (s1, tr1)" and r: "run_trace s1 ks = Some (s', tr2)"
    and tr: "tr = tr1 @ tr2"
    by (auto split: option.splits)
  have d: "door_of (analog i) = oldstate s" using Cons.prems(1) by simp
  note e = loop_without_edge [OF l d]
  have "\<forall>j \<in> set ks. door_of (analog j) = oldstate s1" using Cons.prems(1) e(3) by simp
  from Cons.IH [OF this r] e tr show ?case by simp
qed

lemma run_trace_link:
  "\<forall>j \<in> set ks. link j \<Longrightarrow> \<exists>r. run_trace s ks = Some r"
proof (induction ks arbitrary: s)
  case Nil
  show ?case by simp
next
  case (Cons i ks)
  then have "link i" by simp
  then obtain r where l: "loop s i = Some r" by (simp add: loop_link)
  from Cons obtain q where "run_trace (fst r) ks = Some q" by fastforce
  with l show ?case by simp
qed

text \<open>
  C9, amended: on each edge event the indicator of the new state is driven and the other
  is turned off (green high and red low for open, green low and red high for closed), and
  from the first edge event on, after every pass exactly one of the two indicators is
  high, the one of the current door state. A pass without an edge event writes neither
  indicator. \<open>setup\<close> writes neither indicator, and while every pass since \<open>setup\<close>
  has seen the door open, which is the state \<open>setup\<close> assumed, nothing has been written
  to them: both still hold their level from power-on.
\<close>

theorem indicators_follow_door_after_edge:
  "(loop s i = Some (s1, tr) \<and> door_of (analog i) \<noteq> oldstate s \<and> run s1 js = Some s2 \<longrightarrow>
      writes tr = [DigitalWrite LED_GREEN (door_of (analog i)),
                   DigitalWrite LED_RED (\<not> door_of (analog i))] \<and>
      leds s1 = (door_of (analog i), \<not> door_of (analog i)) \<and>
      leds s2 = (oldstate s2, \<not> oldstate s2)) \<and>
   (loop s i = Some (s1, tr) \<and> door_of (analog i) = oldstate s \<longrightarrow>
      writes tr = [] \<and> leds s1 = leds s) \<and>
   leds (setup_sketch (power_on lv)) = (lv LED_GREEN, lv LED_RED) \<and>
   ((\<forall>j \<in> set ks. door_of (analog j)) \<and>
    run_trace (setup_sketch (power_on lv)) ks = Some (s3, tr3) \<longrightarrow>
      writes tr3 = [] \<and> leds s3 = (lv LED_GREEN, lv LED_RED))"
proof (intro conjI impI)
  assume a: "loop s i = Some (s1, tr) \<and> door_of (analog i) \<noteq> oldstate s \<and>
      run s1 js = Some s2"
  then have l: "loop s i = Some (s1, tr)" and e: "door_of (analog i) \<noteq> oldstate s"
    and r: "run s1 js = Some s2" by simp_all
  show "writes tr = [DigitalWrite LED_GREEN (door_of (analog i)),
                DigitalWrite LED_RED (\<not> door_of (analog i))]"
    using loop_writes [OF l] e by simp
  show l1: "leds s1 = (door_of (analog i), \<not> door_of (analog i))"
    using loop_fields(5) [OF l] e by simp
  then have "leds s1 = (oldstate s1, \<not> oldstate s1)"
    using loop_fields(1) [OF l] by simp
  then show "leds s2 = (oldstate s2, \<not> oldstate s2)" using r by (rule run_keeps_indicators)
next
  assume a: "loop s i = Some (s1, tr) \<and> door_of (analog i) = oldstate s"
  then have l: "loop s i = Some (s1, tr)" and d: "door_of (analog i) = oldstate s"
    by simp_all
  show "writes tr = []" using l d by (rule loop_without_edge(1))
  show "leds s1 = leds s" using l d by (rule loop_without_edge(2))
next
  show p: "leds (setup_sketch (power_on lv)) = (lv LED_GREEN, lv LED_RED)"
    by (simp add: leds_def setup_sketch_def power_on_def)
  assume a: "(\<forall>j \<in> set ks. door_of (analog j)) \<and>
      run_trace (setup_sketch (power_on lv)) ks = Some (s3, tr3)"
  then have "\<forall>j \<in> set ks. door_of (analog j) = oldstate (setup_sketch (power_on lv))"
    by (simp add: setup_sketch_def)
  moreover from a have "run_trace (setup_sketch (power_on lv)) ks = Some (s3, tr3)" by simp
  ultimately have w: "writes tr3 = [] \<and> leds s3 = leds (setup_sketch (power_on lv)) \<and>
      oldstate s3 = oldstate (setup_sketch (power_on lv))"
    by (rule run_trace_without_edge)
  then show "writes tr3 = []" by simp
  from w p show "leds s3 = (lv LED_GREEN, lv LED_RED)" by simp
qed

theorem indicators_follow_door_after_edge_witness:
  "loop boot (tick_of 0 1023) = Some (the (loop boot (tick_of 0 1023))) \<and>
   door_of (analog (tick_of 0 1023)) \<noteq> oldstate boot \<and>
   run (fst (the (loop boot (tick_of 0 1023)))) [tick_of 900 500, tick_of 1800 500] =
     Some (the (run (fst (the (loop boot (tick_of 0 1023)))) [tick_of 900 500, tick_of 1800 500])) \<and>
   writes (snd (the (loop boot (tick_of 0 1023)))) =
     [DigitalWrite LED_GREEN False, DigitalWrite LED_RED True] \<and>
   leds (fst (the (loop boot (tick_of 0 1023)))) = (False, True) \<and>
   leds (the (run (fst (the (loop boot (tick_of 0 1023)))) [tick_of 900 500, tick_of 1800 500])) =
     (True, False) \<and>
   loop boot (tick_of 0 500) = Some (the (loop boot (tick_of 0 500))) \<and>
   door_of (analog (tick_of 0 500)) = oldstate boot \<and>
   writes (snd (the (loop boot (tick_of 0 500)))) = [] \<and>
   leds (fst (the (loop boot (tick_of 0 500)))) = (False, False) \<and>
   door_of (analog (tick_of 900 500)) \<and>
   run_trace (setup_sketch (power_on all_low)) [tick_of 0 500, tick_of 900 500] =
     Some (the (run_trace boot [tick_of 0 500, tick_of 900 500])) \<and>
   writes (snd (the (run_trace boot [tick_of 0 500, tick_of 900 500]))) = [] \<and>
   leds (fst (the (run_trace boot [tick_of 0 500, tick_of 900 500]))) = (False, False)"
proof -
  let ?r1 = "the (loop boot (tick_of 0 1023))"
  let ?s1 = "fst ?r1"
  let ?js = "[tick_of 900 500, tick_of 1800 500]"
  let ?r0 = "the (loop boot (tick_of 0 500))"
  let ?ks = "[tick_of 0 500, tick_of 900 500]"
  let ?q = "the (run_trace boot ?ks)"
  have l: "loop boot (tick_of 0 1023) = Some (?s1, snd ?r1)"
    using loop_tick_of [of boot 0 1023] by simp
  have e: "door_of (analog (tick_of 0 1023)) \<noteq> oldstate boot"
    by (simp add: tick_of_fields boot_fields door_1023)
  have r: "run ?s1 ?js = Some (the (run ?s1 ?js))"
    by (simp add: run_tick_of del: run.simps(2))
  have o: "oldstate (the (run ?s1 ?js)) = True"
    by (simp add: run_tick_of sample_fields tick_of_fields door_500 del: run.simps(2))
  note t1 = indicators_follow_door_after_edge
    [of boot "tick_of 0 1023" ?s1 "snd ?r1" ?js "the (run ?s1 ?js)" all_low ?ks "fst ?q" "snd ?q"]
  from t1 l e r have "writes (snd ?r1) =
      [DigitalWrite LED_GREEN (door_of (analog (tick_of 0 1023))),
       DigitalWrite LED_RED (\<not> door_of (analog (tick_of 0 1023)))] \<and>
    leds ?s1 = (door_of (analog (tick_of 0 1023)), \<not> door_of (analog (tick_of 0 1023))) \<and>
    leds (the (run ?s1 ?js)) = (oldstate (the (run ?s1 ?js)), \<not> oldstate (the (run ?s1 ?js)))"
    by blast
  then have a: "writes (snd ?r1) = [DigitalWrite LED_GREEN False, DigitalWrite LED_RED True]"
    "leds ?s1 = (False, True)" "leds (the (run ?s1 ?js)) = (True, False)"
    using o by (simp_all add: tick_of_fields door_1023)
  have l2: "loop boot (tick_of 0 500) = Some (fst ?r0, snd ?r0)"
    using loop_tick_of [of boot 0 500] by simp
  have d2: "door_of (analog (tick_of 0 500)) = oldstate boot"
    by (simp add: tick_of_fields boot_fields door_500)
  note t2 = indicators_follow_door_after_edge
    [of boot "tick_of 0 500" "fst ?r0" "snd ?r0" ?js "the (run ?s1 ?js)" all_low ?ks "fst ?q" "snd ?q"]
  from t2 l2 d2 have "writes (snd ?r0) = [] \<and> leds (fst ?r0) = leds boot" by blast
  then have b: "writes (snd ?r0) = []" "leds (fst ?r0) = (False, False)"
    by (simp_all add: boot_fields)
  have "\<exists>r. run_trace boot ?ks = Some r"
    by (rule run_trace_link) (simp add: tick_of_fields)
  then have q: "run_trace (setup_sketch (power_on all_low)) ?ks = Some (fst ?q, snd ?q)"
    by (auto simp: boot_def)
  have dk: "\<forall>j \<in> set ?ks. door_of (analog j)"
    by (simp add: tick_of_fields door_500)
  from t2 dk q have "writes (snd ?q) = [] \<and> leds (fst ?q) = (all_low LED_GREEN, all_low LED_RED)"
    by blast
  then have c: "writes (snd ?q) = []" "leds (fst ?q) = (False, False)"
    by (simp_all add: all_low_def)
  from l have l': "loop boot (tick_of 0 1023) = Some ?r1" by simp
  from l2 have l2': "loop boot (tick_of 0 500) = Some ?r0" by simp
  from q have q': "run_trace (setup_sketch (power_on all_low)) ?ks = Some ?q" by simp
  have d9: "door_of (analog (tick_of 900 500))" by (simp add: tick_of_fields door_500)
  show ?thesis using l' e r a l2' d2 b d9 q' c by (intro conjI) assumption+
qed

section \<open>The order of one pass\<close>

lemma sample_after_read:
  "\<exists>post. snd (sample s i) = AnalogRead # post \<and> AnalogRead \<notin> set post \<and>
     set (publishes post) \<subseteq> {garage_opened, garage_closed}"
proof (rule exI [of _ "tl (snd (sample s i))"], intro conjI)
  show "snd (sample s i) = AnalogRead # tl (snd (sample s i))"
    by (simp add: sample_trace)
  show "AnalogRead \<notin> set (tl (snd (sample s i)))"
    by (simp add: sample_trace edge_def)
  have "publishes (tl (snd (sample s i))) = publishes (snd (sample s i))"
    by (simp add: sample_trace)
  then show "set (publishes (tl (snd (sample s i)))) \<subseteq> {garage_opened, garage_closed}"
    using sample_publishes [of s i] by simp
qed

text \<open>
  C10: on a pass where the periodic part fires, it publishes three messages in this
  order: the ping, the temperature, the humidity. The trace of the pass is the
  connection part, then the actions of the fire, then the reading of the distance sample,
  then the rest: everything the fire publishes comes before the sample is read and before
  any state change is published, and before the fire only \<open>sensor_online\<close> can have
  been published.
\<close>

theorem fire_publishes_in_order_before_sample:
  "loop s i = Some (s', tr) \<Longrightarrow> 10000 <s millis i - last_msg_sent s \<Longrightarrow>
   publishes (snd (telemetry s i)) =
     [ping, Publish MQTT_TEMP (Dtostrf (temperature i)),
      Publish MQTT_HUMI (Dtostrf (humidity i))] \<and>
   AnalogRead \<notin> set (snd (telemetry s i)) \<and>
   (\<exists>pre post. tr = pre @ snd (telemetry s i) @ AnalogRead # post \<and>
      set (publishes pre) \<subseteq> {sensor_online} \<and>
      AnalogRead \<notin> set pre \<and> AnalogRead \<notin> set post \<and>
      set (publishes post) \<subseteq> {garage_opened, garage_closed})"
proof -
  assume l: "loop s i = Some (s', tr)" and f: "10000 <s millis i - last_msg_sent s"
  from l obtain tr0 where
    tr: "tr = tr0 @ ClientLoop # snd (telemetry s i) @ snd (sample (fst (telemetry s i)) i)"
    and tr0: "set tr0 \<subseteq> set attempt_failed \<union> set attempt_ok"
    by (rule loop_SomeD)
  obtain post where
    p: "snd (sample (fst (telemetry s i)) i) = AnalogRead # post" "AnalogRead \<notin> set post"
      "set (publishes post) \<subseteq> {garage_opened, garage_closed}"
    using sample_after_read [of "fst (telemetry s i)" i] by blast
  have a: "tr = (tr0 @ [ClientLoop]) @ snd (telemetry s i) @ AnalogRead # post"
    unfolding tr p(1) by simp
  have b: "set (publishes (tr0 @ [ClientLoop])) \<subseteq> {sensor_online}"
    using attempts_no_events(5) [OF tr0] by simp
  have c: "AnalogRead \<notin> set (tr0 @ [ClientLoop])"
    using attempts_no_events(4) [OF tr0] by simp
  have "\<exists>pre post. tr = pre @ snd (telemetry s i) @ AnalogRead # post \<and>
      set (publishes pre) \<subseteq> {sensor_online} \<and>
      AnalogRead \<notin> set pre \<and> AnalogRead \<notin> set post \<and>
      set (publishes post) \<subseteq> {garage_opened, garage_closed}"
    using a b c p(2,3) by (intro exI [of _ "tr0 @ [ClientLoop]"] exI [of _ post] conjI)
  then show ?thesis using f by (simp add: telemetry_publishes telemetry_no_events)
qed

theorem fire_publishes_in_order_before_sample_witness:
  "loop boot (tick_of 20000 1023) = Some (the (loop boot (tick_of 20000 1023))) \<and>
   10000 <s millis (tick_of 20000 1023) - last_msg_sent boot \<and>
   publishes (snd (telemetry boot (tick_of 20000 1023))) =
     [ping, Publish MQTT_TEMP (Dtostrf (Fin 20)), Publish MQTT_HUMI (Dtostrf (Fin 50))] \<and>
   (\<exists>pre post.
      snd (the (loop boot (tick_of 20000 1023))) =
        pre @ snd (telemetry boot (tick_of 20000 1023)) @ AnalogRead # post \<and>
      set (publishes pre) \<subseteq> {sensor_online} \<and>
      AnalogRead \<notin> set pre \<and> AnalogRead \<notin> set post \<and>
      set (publishes post) \<subseteq> {garage_opened, garage_closed}) \<and>
   publishes (snd (the (loop boot (tick_of 20000 1023)))) =
     [ping, Publish MQTT_TEMP (Dtostrf (Fin 20)), Publish MQTT_HUMI (Dtostrf (Fin 50)),
      garage_closed]"
proof -
  obtain s' tr where l: "loop boot (tick_of 20000 1023) = Some (s', tr)"
    using loop_tick_of [of boot 20000 1023] by simp
  have f: "10000 <s millis (tick_of 20000 1023) - last_msg_sent boot"
    by (simp add: tick_of_fields boot_fields word_sless_alt)
  note t = fire_publishes_in_order_before_sample [OF l f]
  from t have a: "publishes (snd (telemetry boot (tick_of 20000 1023))) =
      [ping, Publish MQTT_TEMP (Dtostrf (Fin 20)), Publish MQTT_HUMI (Dtostrf (Fin 50))]"
    by (simp add: tick_of_fields)
  from t have b: "\<exists>pre post.
      tr = pre @ snd (telemetry boot (tick_of 20000 1023)) @ AnalogRead # post \<and>
      set (publishes pre) \<subseteq> {sensor_online} \<and>
      AnalogRead \<notin> set pre \<and> AnalogRead \<notin> set post \<and>
      set (publishes post) \<subseteq> {garage_opened, garage_closed}"
    by (elim conjE)
  have c: "publishes (snd (the (loop boot (tick_of 20000 1023)))) =
     [ping, Publish MQTT_TEMP (Dtostrf (Fin 20)), Publish MQTT_HUMI (Dtostrf (Fin 50)),
      garage_closed]"
    by (simp add: loop_tick_of telemetry_def sample_trace edge_def tick_of_fields boot_fields
        door_1023 ping_def garage_closed_def)
  from l have tr: "snd (the (loop boot (tick_of 20000 1023))) = tr"
    and l0: "loop boot (tick_of 20000 1023) = Some (the (loop boot (tick_of 20000 1023)))"
    by simp_all
  show ?thesis unfolding tr using l0 f a b c [unfolded tr]
    by (intro conjI) assumption+
qed

section \<open>When a pass completes\<close>

lemma reconnect_returns:
  assumes "outcome m"
  shows "\<exists>n. reconnect outcome 0 False [] =
     Some (concat (replicate n attempt_failed) @ attempt_ok)"
proof -
  define n where "n = (LEAST k. outcome k)"
  have "outcome n" unfolding n_def using assms by (rule LeastI)
  moreover have "\<not> outcome j" if "j < n" for j
    using that not_less_Least unfolding n_def by blast
  ultimately have "reconnect outcome 0 False [] =
      Some ([] @ concat (replicate n attempt_failed) @ attempt_ok)"
    by (intro reconnect_after_failures) simp_all
  then show ?thesis by auto
qed

lemma loop_None_iff:
  "loop s i = None \<longleftrightarrow> \<not> link i \<and> (\<forall>k. \<not> connects i k)"
proof
  assume n: "loop s i = None"
  show "\<not> link i \<and> (\<forall>k. \<not> connects i k)"
  proof (rule ccontr)
    assume "\<not> (\<not> link i \<and> (\<forall>k. \<not> connects i k))"
    then consider "link i" | m where "\<not> link i" "connects i m" by blast
    then show False
    proof cases
      case 1
      then show False using n by (simp add: loop_link)
    next
      case 2
      from reconnect_returns [of "connects i" m, OF 2(2)] obtain r where
        "reconnect (connects i) 0 False [] = Some r" by blast
      with 2(1) n show False by (simp add: loop_def)
    qed
  qed
next
  assume a: "\<not> link i \<and> (\<forall>k. \<not> connects i k)"
  then have "reconnect (connects i) 0 False [] = None"
    by (intro reconnect_never) simp
  with a show "loop s i = None" by (simp add: loop_def)
qed

text \<open>
  A pass that starts disconnected and connects at the third attempt: it announces
  itself, then reports, and the door, open as \<open>setup\<close> assumed, changes nothing.
\<close>

lemma loop_offline_publishes:
  "map_option (publishes \<circ> snd) (loop boot tick_offline) =
     Some [sensor_online, ping, Publish MQTT_TEMP (Dtostrf (Fin 20)),
           Publish MQTT_HUMI (Dtostrf (Fin 50))]"
proof -
  have "reconnect third_time 0 False [] =
      Some ([] @ concat (replicate 2 attempt_failed) @ attempt_ok)"
    by (intro reconnect_after_failures) (simp_all add: third_time_def)
  then have r: "reconnect third_time 0 False [] =
      Some (attempt_failed @ attempt_failed @ attempt_ok)"
    by (simp add: numeral_2_eq_2)
  have f: "10000 <s millis tick_offline - last_msg_sent boot"
    by (simp add: tick_offline_def tick_of_def boot_fields word_sless_alt)
  have e: "publishes (snd (edge (boot\<lparr>last_msg_sent := 20000, state := True\<rparr>))) = []"
    by (simp add: edge_def boot_fields)
  show ?thesis
    using r f e
    by (simp add: loop_def tick_offline_def tick_of_def publishes_attempts
        telemetry_publishes telemetry_def sample_trace door_500 ping_def)
qed

end
